theory Spec2Isabelle
  imports Main
begin

section \<open>JSON values and Python exceptions\<close>

text \<open>
  Both tables of the application keep one JSON text per row
  (\<^verbatim>\<open>state_stack_json\<close>, \<^verbatim>\<open>message_stack_json\<close>), written with
  \<^verbatim>\<open>json.dumps\<close> and read with \<^verbatim>\<open>json.loads\<close>. The model keeps the value the
  text encodes: on the values below \<^verbatim>\<open>json.loads (json.dumps v)\<close> is \<open>v\<close>. A Python
  \<^verbatim>\<open>dict\<close> is an association list in insertion order; Python's \<^verbatim>\<open>None\<close> and
  JSON's \<^verbatim>\<open>null\<close> are the one value \<open>JNull\<close>. Numbers are integers (the token
  count is an \<^verbatim>\<open>int\<close>); floating point numbers are left out.
\<close>

datatype json =
    JNull
  | JBool bool
  | JInt int
  | JStr string
  | JArr "json list"
  | JObj "(string \<times> json) list"

datatype error =
    IndexError
  | KeyError string
  | TypeError
  | ValueError
  | OSError
  | Exception string

text \<open>Truth value of a Python object, as \<^verbatim>\<open>if x:\<close> tests it.\<close>

fun truthy :: "json \<Rightarrow> bool" where
  "truthy JNull = False"
| "truthy (JBool b) = b"
| "truthy (JInt n) = (n \<noteq> 0)"
| "truthy (JStr s) = (s \<noteq> [])"
| "truthy (JArr xs) = (xs \<noteq> [])"
| "truthy (JObj d) = (d \<noteq> [])"

text \<open>\<^verbatim>\<open>d[k] = v\<close> on a dict: an existing key keeps its place, a new key goes last.\<close>

fun dict_set :: "string \<Rightarrow> json \<Rightarrow> (string \<times> json) list \<Rightarrow> (string \<times> json) list" where
  "dict_set k v [] = [(k, v)]"
| "dict_set k v ((k', v') # d) = (if k' = k then (k, v) # d else (k', v') # dict_set k v d)"

fun dict_get :: "string \<Rightarrow> (string \<times> json) list \<Rightarrow> json option" where
  "dict_get k [] = None"
| "dict_get k ((k', v') # d) = (if k' = k then Some v' else dict_get k d)"

text \<open>\<^verbatim>\<open>x[k]\<close> and \<^verbatim>\<open>x[k] = v\<close> with a string key \<open>k\<close>: only a dict accepts them.\<close>

fun getitem :: "json \<Rightarrow> string \<Rightarrow> error + json" where
  "getitem (JObj d) k = (case dict_get k d of None \<Rightarrow> Inl (KeyError k) | Some v \<Rightarrow> Inr v)"
| "getitem _ k = Inl TypeError"

fun setitem :: "json \<Rightarrow> string \<Rightarrow> json \<Rightarrow> error + json" where
  "setitem (JObj d) k v = Inr (JObj (dict_set k v d))"
| "setitem _ k v = Inl TypeError"

text \<open>\<^verbatim>\<open>x + n\<close> for an integer \<open>n\<close>: \<^verbatim>\<open>bool\<close> is a subclass of \<^verbatim>\<open>int\<close>.\<close>

fun py_add :: "json \<Rightarrow> int \<Rightarrow> error + json" where
  "py_add (JInt m) n = Inr (JInt (m + n))"
| "py_add (JBool b) n = Inr (JInt ((if b then 1 else 0) + n))"
| "py_add _ n = Inl TypeError"

text \<open>\<^verbatim>\<open>xs[-1]\<close> and \<^verbatim>\<open>xs[-1] = v\<close> on a list: both raise on the empty list.\<close>

definition get_last :: "json list \<Rightarrow> error + json" where
  "get_last xs = (if xs = [] then Inl IndexError else Inr (last xs))"

definition set_last :: "json list \<Rightarrow> json \<Rightarrow> error + json list" where
  "set_last xs v = (if xs = [] then Inl IndexError else Inr (butlast xs @ [v]))"

section \<open>The execution-state table (state.py)\<close>

record agent_state_model =
  row_id :: nat
  project :: string
  state_stack_json :: "json list"

type_synonym agent_state_table = "agent_state_model list"

text \<open>
  The table is the list of its rows in the order SQLite scans them (by row id).
  \<^verbatim>\<open>session.query(...).filter(project == p).first()\<close> is the first row of the project;
  \<^verbatim>\<open>session.add\<close> gives the new row the next free id and puts it last; a
  \<^verbatim>\<open>commit\<close> after a change of the queried object rewrites that row.
\<close>

definition first_state :: "string \<Rightarrow> agent_state_table \<Rightarrow> agent_state_model option" where
  "first_state p db = find (\<lambda>r. project r = p) db"

definition next_state_id :: "agent_state_table \<Rightarrow> nat" where
  "next_state_id db = Suc (fold max (map row_id db) 0)"

definition add_state_row :: "string \<Rightarrow> json list \<Rightarrow> agent_state_table \<Rightarrow> agent_state_table" where
  "add_state_row p stack db =
     db @ [\<lparr>row_id = next_state_id db, project = p, state_stack_json = stack\<rparr>]"

fun commit_state_row :: "string \<Rightarrow> json list \<Rightarrow> agent_state_table \<Rightarrow> agent_state_table" where
  "commit_state_row p stack [] = []"
| "commit_state_row p stack (r # db) =
     (if project r = p then r\<lparr>state_stack_json := stack\<rparr> # db
      else r # commit_state_row p stack db)"

fun delete_state_row :: "string \<Rightarrow> agent_state_table \<Rightarrow> agent_state_table" where
  "delete_state_row p [] = []"
| "delete_state_row p (r # db) = (if project r = p then db else r # delete_state_row p db)"

text \<open>\<^verbatim>\<open>new_state\<close>; the clock reading is the parameter \<open>timestamp\<close>.\<close>

definition new_state :: "string \<Rightarrow> json" where
  "new_state timestamp = JObj [
     (''internal_monologue'', JNull),
     (''browser_session'', JObj [(''url'', JNull), (''screenshot'', JNull)]),
     (''terminal_session'', JObj [(''command'', JNull), (''output'', JNull), (''title'', JNull)]),
     (''step'', JNull),
     (''message'', JNull),
     (''completed'', JBool False),
     (''agent_is_active'', JBool True),
     (''token_usage'', JInt 0),
     (''timestamp'', JStr timestamp)]"

definition delete_state :: "string \<Rightarrow> agent_state_table \<Rightarrow> agent_state_table" where
  "delete_state p db =
     (case first_state p db of
        Some r \<Rightarrow> delete_state_row p db
      | None \<Rightarrow> db)"

definition add_to_current_state :: "string \<Rightarrow> json \<Rightarrow> agent_state_table \<Rightarrow> agent_state_table" where
  "add_to_current_state p state db =
     (case first_state p db of
        Some r \<Rightarrow> commit_state_row p (state_stack_json r @ [state]) db
      | None \<Rightarrow> add_state_row p [state] db)"

definition get_current_state :: "string \<Rightarrow> agent_state_table \<Rightarrow> json list option" where
  "get_current_state p db =
     (case first_state p db of
        Some r \<Rightarrow> Some (state_stack_json r)
      | None \<Rightarrow> None)"

definition update_latest_state :: "string \<Rightarrow> json \<Rightarrow> agent_state_table \<Rightarrow> error + agent_state_table" where
  "update_latest_state p state db =
     (case first_state p db of
        Some r \<Rightarrow>
          (case set_last (state_stack_json r) state of
             Inl e \<Rightarrow> Inl e
           | Inr stack \<Rightarrow> Inr (commit_state_row p stack db))
      | None \<Rightarrow> Inr (add_state_row p [state] db))"

definition get_latest_state :: "string \<Rightarrow> agent_state_table \<Rightarrow> error + json" where
  "get_latest_state p db =
     (case first_state p db of
        Some r \<Rightarrow> get_last (state_stack_json r)
      | None \<Rightarrow> Inr JNull)"

text \<open>
  \<^verbatim>\<open>state_stack[-1][key] = v\<close>: the last snapshot is changed in place, so the
  stack that is written back is the old one with its last element replaced.
\<close>

definition patch_last :: "json list \<Rightarrow> string \<Rightarrow> json \<Rightarrow> error + json list" where
  "patch_last stack key v =
     (case get_last stack of
        Inl e \<Rightarrow> Inl e
      | Inr s \<Rightarrow>
          (case setitem s key v of
             Inl e \<Rightarrow> Inl e
           | Inr s' \<Rightarrow> Inr (butlast stack @ [s'])))"

definition set_agent_active :: "string \<Rightarrow> bool \<Rightarrow> string \<Rightarrow> agent_state_table \<Rightarrow> error + agent_state_table" where
  "set_agent_active p is_active timestamp db =
     (case first_state p db of
        Some r \<Rightarrow>
          (case patch_last (state_stack_json r) ''agent_is_active'' (JBool is_active) of
             Inl e \<Rightarrow> Inl e
           | Inr stack \<Rightarrow> Inr (commit_state_row p stack db))
      | None \<Rightarrow>
          (case patch_last [new_state timestamp] ''agent_is_active'' (JBool is_active) of
             Inl e \<Rightarrow> Inl e
           | Inr stack \<Rightarrow> Inr (add_state_row p stack db)))"

definition read_last :: "json list \<Rightarrow> string \<Rightarrow> error + json" where
  "read_last stack key =
     (case get_last stack of
        Inl e \<Rightarrow> Inl e
      | Inr s \<Rightarrow> getitem s key)"

definition is_agent_active :: "string \<Rightarrow> agent_state_table \<Rightarrow> error + json" where
  "is_agent_active p db =
     (case first_state p db of
        Some r \<Rightarrow> read_last (state_stack_json r) ''agent_is_active''
      | None \<Rightarrow> Inr JNull)"

definition set_agent_completed :: "string \<Rightarrow> bool \<Rightarrow> string \<Rightarrow> agent_state_table \<Rightarrow> error + agent_state_table" where
  "set_agent_completed p is_completed timestamp db =
     (case first_state p db of
        Some r \<Rightarrow>
          (case patch_last (state_stack_json r) ''completed'' (JBool is_completed) of
             Inl e \<Rightarrow> Inl e
           | Inr stack \<Rightarrow> Inr (commit_state_row p stack db))
      | None \<Rightarrow>
          (case patch_last [new_state timestamp] ''completed'' (JBool is_completed) of
             Inl e \<Rightarrow> Inl e
           | Inr stack \<Rightarrow> Inr (add_state_row p stack db)))"

definition is_agent_completed :: "string \<Rightarrow> agent_state_table \<Rightarrow> error + json" where
  "is_agent_completed p db =
     (case first_state p db of
        Some r \<Rightarrow> read_last (state_stack_json r) ''completed''
      | None \<Rightarrow> Inr JNull)"

text \<open>
  \<^verbatim>\<open>state_stack[-1]["token_usage"] += token_usage\<close> reads the last snapshot, reads
  its field, adds, and stores the sum in the field.
\<close>

definition add_last :: "json list \<Rightarrow> string \<Rightarrow> int \<Rightarrow> error + json list" where
  "add_last stack key n =
     (case get_last stack of
        Inl e \<Rightarrow> Inl e
      | Inr s \<Rightarrow>
          (case getitem s key of
             Inl e \<Rightarrow> Inl e
           | Inr old \<Rightarrow>
               (case py_add old n of
                  Inl e \<Rightarrow> Inl e
                | Inr new \<Rightarrow>
                    (case setitem s key new of
                       Inl e \<Rightarrow> Inl e
                     | Inr s' \<Rightarrow> Inr (butlast stack @ [s'])))))"

definition update_token_usage :: "string \<Rightarrow> int \<Rightarrow> string \<Rightarrow> agent_state_table \<Rightarrow> error + agent_state_table" where
  "update_token_usage p token_usage timestamp db =
     (case first_state p db of
        Some r \<Rightarrow>
          (case add_last (state_stack_json r) ''token_usage'' token_usage of
             Inl e \<Rightarrow> Inl e
           | Inr stack \<Rightarrow> Inr (commit_state_row p stack db))
      | None \<Rightarrow>
          (case patch_last [new_state timestamp] ''token_usage'' (JInt token_usage) of
             Inl e \<Rightarrow> Inl e
           | Inr stack \<Rightarrow> Inr (add_state_row p stack db)))"

definition get_latest_token_usage :: "string \<Rightarrow> agent_state_table \<Rightarrow> error + json" where
  "get_latest_token_usage p db =
     (case first_state p db of
        Some r \<Rightarrow> read_last (state_stack_json r) ''token_usage''
      | None \<Rightarrow> Inr (JInt 0))"

text \<open>The length of a project's snapshot sequence; a project without a row has length 0.\<close>

definition stack_length :: "string \<Rightarrow> agent_state_table \<Rightarrow> nat" where
  "stack_length p db = (case get_current_state p db of None \<Rightarrow> 0 | Some stack \<Rightarrow> length stack)"

text \<open>
  The operations of \<^verbatim>\<open>AgentState\<close> that write, as one type, and a run of them: an
  operation that raises commits nothing, so the table stays as it was.
\<close>

datatype state_op =
    DeleteState string
  | AddToCurrentState string json
  | UpdateLatestState string json
  | SetAgentActive string bool string
  | SetAgentCompleted string bool string
  | UpdateTokenUsage string int string

fun apply_op :: "state_op \<Rightarrow> agent_state_table \<Rightarrow> error + agent_state_table" where
  "apply_op (DeleteState p) db = Inr (delete_state p db)"
| "apply_op (AddToCurrentState p state) db = Inr (add_to_current_state p state db)"
| "apply_op (UpdateLatestState p state) db = update_latest_state p state db"
| "apply_op (SetAgentActive p b timestamp) db = set_agent_active p b timestamp db"
| "apply_op (SetAgentCompleted p b timestamp) db = set_agent_completed p b timestamp db"
| "apply_op (UpdateTokenUsage p n timestamp) db = update_token_usage p n timestamp db"

fun run_ops :: "state_op list \<Rightarrow> agent_state_table \<Rightarrow> agent_state_table" where
  "run_ops [] db = db"
| "run_ops (op # ops) db =
     (case apply_op op db of
        Inl e \<Rightarrow> run_ops ops db
      | Inr db' \<Rightarrow> run_ops ops db')"

definition stacks_nonempty :: "agent_state_table \<Rightarrow> bool" where
  "stacks_nonempty db = list_all (\<lambda>r. state_stack_json r \<noteq> []) db"

text \<open>The three operations that patch one field of the last snapshot, and the field of each.\<close>

datatype patch_op =
    PatchActive bool
  | PatchCompleted bool
  | PatchTokenUsage int

fun patch_field :: "patch_op \<Rightarrow> string" where
  "patch_field (PatchActive b) = ''agent_is_active''"
| "patch_field (PatchCompleted b) = ''completed''"
| "patch_field (PatchTokenUsage n) = ''token_usage''"

fun run_patch :: "patch_op \<Rightarrow> string \<Rightarrow> string \<Rightarrow> agent_state_table \<Rightarrow> error + agent_state_table" where
  "run_patch (PatchActive b) p timestamp db = set_agent_active p b timestamp db"
| "run_patch (PatchCompleted b) p timestamp db = set_agent_completed p b timestamp db"
| "run_patch (PatchTokenUsage n) p timestamp db = update_token_usage p n timestamp db"

section \<open>The conversation table (project.py)\<close>

record projects =
  projects_id :: nat
  projects_project :: string
  message_stack_json :: "json list"

type_synonym projects_table = "projects list"

definition first_project :: "string \<Rightarrow> projects_table \<Rightarrow> projects option" where
  "first_project p db = find (\<lambda>r. projects_project r = p) db"

definition next_project_id :: "projects_table \<Rightarrow> nat" where
  "next_project_id db = Suc (fold max (map projects_id db) 0)"

definition add_project_row :: "string \<Rightarrow> json list \<Rightarrow> projects_table \<Rightarrow> projects_table" where
  "add_project_row p stack db =
     db @ [\<lparr>projects_id = next_project_id db, projects_project = p, message_stack_json = stack\<rparr>]"

fun commit_project_row :: "string \<Rightarrow> json list \<Rightarrow> projects_table \<Rightarrow> projects_table" where
  "commit_project_row p stack [] = []"
| "commit_project_row p stack (r # db) =
     (if projects_project r = p then r\<lparr>message_stack_json := stack\<rparr> # db
      else r # commit_project_row p stack db)"

definition new_message :: "string \<Rightarrow> json" where
  "new_message timestamp = JObj [
     (''from_devika'', JBool True),
     (''message'', JNull),
     (''timestamp'', JStr timestamp)]"

definition create_project :: "string \<Rightarrow> projects_table \<Rightarrow> projects_table" where
  "create_project p db = add_project_row p [] db"

definition add_message_to_project :: "string \<Rightarrow> json \<Rightarrow> projects_table \<Rightarrow> projects_table" where
  "add_message_to_project p message db =
     (case first_project p db of
        Some r \<Rightarrow> commit_project_row p (message_stack_json r @ [message]) db
      | None \<Rightarrow> add_project_row p [message] db)"

definition get_messages :: "string \<Rightarrow> projects_table \<Rightarrow> json list option" where
  "get_messages p db =
     (case first_project p db of
        Some r \<Rightarrow> Some (message_stack_json r)
      | None \<Rightarrow> None)"

definition get_project_list :: "projects_table \<Rightarrow> string list" where
  "get_project_list db = map projects_project db"

text \<open>A sequence of appends to one project, in the order given.\<close>

fun add_messages :: "string \<Rightarrow> json list \<Rightarrow> projects_table \<Rightarrow> projects_table" where
  "add_messages p [] db = db"
| "add_messages p (m # ms) db = add_messages p ms (add_message_to_project p m db)"

section \<open>The send-message route (devika.py)\<close>

text \<open>
  The route works on both tables and may start a thread. The agent that the thread
  runs is not part of this development: a started thread is recorded with the
  arguments of its \<^verbatim>\<open>subsequent_execute\<close> call.
\<close>

datatype task = SubsequentExecute json json string

record request_data =
  message :: json
  project_name :: string
  base_model :: json

record system =
  projects_db :: projects_table
  agent_state_db :: agent_state_table
  threads :: "task list"

definition send_message :: "string \<Rightarrow> request_data \<Rightarrow> system \<Rightarrow> (error + json) \<times> system" where
  "send_message timestamp data sys =
     (case setitem (new_message timestamp) ''message'' (message data) of
        Inl e \<Rightarrow> (Inl e, sys)
      | Inr m1 \<Rightarrow>
          (case setitem m1 ''from_devika'' (JBool False) of
             Inl e \<Rightarrow> (Inl e, sys)
           | Inr m2 \<Rightarrow>
               (let sys1 = sys\<lparr>projects_db :=
                            add_message_to_project (project_name data) m2 (projects_db sys)\<rparr>
                in case is_agent_completed (project_name data) (agent_state_db sys1) of
                     Inl e \<Rightarrow> (Inl e, sys1)
                   | Inr completed \<Rightarrow>
                       (Inr (JObj [(''message'', JStr ''Message sent'')]),
                        if truthy completed
                        then sys1\<lparr>threads := threads sys1 @
                               [SubsequentExecute (base_model data) (message data) (project_name data)]\<rparr>
                        else sys1))))"

section \<open>Paths (os.path on POSIX)\<close>

text \<open>
  A string is a list of characters with codes 0 to 255, read as the code points
  U+0000 to U+00FF. On these \<^verbatim>\<open>str.lower\<close> works character by character
  and keeps the length: it adds 32 (it sets bit 5) to the codes 65..90, the letters
  A to Z, and to the codes 192..222 other than 215, the accented capital letters
  (215 is the multiplication sign), and leaves every other character as it is.
  \<^verbatim>\<open>replace(" ", "-")\<close> replaces single characters.
\<close>

fun lower_char :: "char \<Rightarrow> char" where
  "lower_char (Char b0 b1 b2 b3 b4 b5 b6 b7) =
     (if (65 \<le> (of_char (Char b0 b1 b2 b3 b4 b5 b6 b7) :: nat)
            \<and> (of_char (Char b0 b1 b2 b3 b4 b5 b6 b7) :: nat) \<le> 90)
         \<or> (192 \<le> (of_char (Char b0 b1 b2 b3 b4 b5 b6 b7) :: nat)
            \<and> (of_char (Char b0 b1 b2 b3 b4 b5 b6 b7) :: nat) \<le> 222
            \<and> (of_char (Char b0 b1 b2 b3 b4 b5 b6 b7) :: nat) \<noteq> 215)
      then Char b0 b1 b2 b3 b4 True b6 b7
      else Char b0 b1 b2 b3 b4 b5 b6 b7)"

definition lower :: "string \<Rightarrow> string" where
  "lower s = map lower_char s"

definition replace_char :: "char \<Rightarrow> char \<Rightarrow> string \<Rightarrow> string" where
  "replace_char old new s = map (\<lambda>c. if c = old then new else c) s"

text \<open>
  \<^verbatim>\<open>os.path.join(a, b)\<close>: an absolute \<open>b\<close> replaces \<open>a\<close>; otherwise \<open>b\<close> is
  appended, with a separator unless \<open>a\<close> is empty or ends with one.
\<close>

fun startswith :: "string \<Rightarrow> string \<Rightarrow> bool" where
  "startswith s [] = True"
| "startswith [] (p # ps) = False"
| "startswith (c # cs) (p # ps) = (c = p \<and> startswith cs ps)"

definition endswith_sep :: "string \<Rightarrow> bool" where
  "endswith_sep s = (s \<noteq> [] \<and> last s = CHR ''/'')"

definition path_join :: "string \<Rightarrow> string \<Rightarrow> string" where
  "path_join a b =
     (if startswith b ''/'' then b
      else if a = [] \<or> endswith_sep a then a @ b
      else a @ ''/'' @ b)"

text \<open>\<^verbatim>\<open>path.split("/")\<close> and \<^verbatim>\<open>"/".join(comps)\<close>.\<close>

fun split_sep :: "string \<Rightarrow> string list" where
  "split_sep [] = [[]]"
| "split_sep (c # cs) =
     (if c = CHR ''/'' then [] # split_sep cs
      else (case split_sep cs of [] \<Rightarrow> [[c]] | x # xs \<Rightarrow> (c # x) # xs))"

fun join_sep :: "string list \<Rightarrow> string" where
  "join_sep [] = []"
| "join_sep [x] = x"
| "join_sep (x # y # ys) = x @ ''/'' @ join_sep (y # ys)"

text \<open>
  \<^verbatim>\<open>os.path.normpath\<close>: \<open>norm_step\<close> is the body of its loop over the components,
  \<open>new_comps\<close> the list it builds. One or two leading slashes are kept, three or more
  become one.
\<close>

definition norm_step :: "nat \<Rightarrow> string list \<Rightarrow> string \<Rightarrow> string list" where
  "norm_step initial_slashes new_comps part =
     (if part = [] \<or> part = ''.'' then new_comps
      else if part \<noteq> ''..'' \<or> (initial_slashes = 0 \<and> new_comps = [])
              \<or> (new_comps \<noteq> [] \<and> last new_comps = ''..'')
      then new_comps @ [part]
      else if new_comps \<noteq> [] then butlast new_comps
      else new_comps)"

definition normpath :: "string \<Rightarrow> string" where
  "normpath path =
     (if path = [] then ''.''
      else
        let initial_slashes =
              (if startswith path ''/''
               then (if startswith path ''//'' \<and> \<not> startswith path ''///'' then 2 else 1)
               else 0);
            comps = foldl (norm_step initial_slashes) [] (split_sep path);
            path' = replicate initial_slashes CHR ''/'' @ join_sep comps
        in if path' = [] then ''.'' else path')"


text \<open>
  \<^verbatim>\<open>os.path.abspath\<close> and \<^verbatim>\<open>os.path.relpath\<close>; the working directory that
  \<^verbatim>\<open>os.getcwd()\<close> returns is the parameter \<open>cwd\<close>.
\<close>

definition abspath :: "string \<Rightarrow> string \<Rightarrow> string" where
  "abspath cwd path = normpath (if startswith path ''/'' then path else path_join cwd path)"

fun commonprefix :: "string list \<Rightarrow> string list \<Rightarrow> string list" where
  "commonprefix (x # xs) (y # ys) = (if x = y then x # commonprefix xs ys else [])"
| "commonprefix _ _ = []"

definition relpath :: "string \<Rightarrow> string \<Rightarrow> string \<Rightarrow> error + string" where
  "relpath cwd path start =
     (if path = [] then Inl ValueError
      else
        let start_list = filter (\<lambda>x. x \<noteq> []) (split_sep (abspath cwd start));
            path_list = filter (\<lambda>x. x \<noteq> []) (split_sep (abspath cwd path));
            i = length (commonprefix start_list path_list);
            rel_list = replicate (length start_list - i) ''..'' @ drop i path_list
        in (case rel_list of
              [] \<Rightarrow> Inr ''.''
            | a # p \<Rightarrow> Inr (foldl path_join a p)))"

section \<open>The file system and os.walk\<close>

text \<open>
  A directory tree: a file holds the bytes that opening and reading it gives (\<open>None\<close>
  when the file cannot be opened or read), a directory holds its entries in the order
  \<^verbatim>\<open>os.scandir\<close> lists them, and \<open>Unreadable_Dir\<close> is a directory that cannot be
  listed. \<^verbatim>\<open>os.walk\<close>
  goes top-down, yields \<^verbatim>\<open>(root, dirs, files)\<close> for each directory it can list and
  ignores listing errors. Each file name in \<open>files\<close> comes with the content of the
  file that was listed under it, which is the file that \<^verbatim>\<open>open(os.path.join(root, file))\<close>
  then opens.
\<close>

datatype node =
    File "string option"
  | Dir "(string \<times> node) list"
  | Unreadable_Dir

fun is_dir :: "node \<Rightarrow> bool" where
  "is_dir (File content) = False"
| "is_dir (Dir entries) = True"
| "is_dir Unreadable_Dir = True"

fun dirs_of :: "(string \<times> node) list \<Rightarrow> string list" where
  "dirs_of [] = []"
| "dirs_of ((name, x) # entries) = (if is_dir x then name # dirs_of entries else dirs_of entries)"

fun files_of :: "(string \<times> node) list \<Rightarrow> (string \<times> string option) list" where
  "files_of [] = []"
| "files_of ((name, File content) # entries) = (name, content) # files_of entries"
| "files_of ((name, x) # entries) = files_of entries"

type_synonym walk_entry = "string \<times> string list \<times> (string \<times> string option) list"

fun walk :: "string \<Rightarrow> node \<Rightarrow> walk_entry list"
  and walk_dirs :: "string \<Rightarrow> (string \<times> node) list \<Rightarrow> walk_entry list" where
  "walk top_path (File content) = []"
| "walk top_path Unreadable_Dir = []"
| "walk top_path (Dir entries) = (top_path, dirs_of entries, files_of entries) # walk_dirs top_path entries"
| "walk_dirs top_path [] = []"
| "walk_dirs top_path ((name, x) # entries) =
     (if is_dir x then walk (path_join top_path name) x else []) @ walk_dirs top_path entries"

text \<open>
  The errors that \<^verbatim>\<open>os.walk\<close> ignores are those of the file system. A path with a
  null character in it is refused before the file system is asked, and this error
  \<^verbatim>\<open>os.walk\<close> does not catch: it reaches the caller when the loop starts.
\<close>

definition os_walk :: "string \<Rightarrow> node \<Rightarrow> error + walk_entry list" where
  "os_walk top_path fs =
     (if CHR 0x00 \<in> set top_path then Inl ValueError else Inr (walk top_path fs))"

section \<open>Reading a project directory (read_code.py)\<close>

text \<open>
  Reading a file gives its bytes, or raises when the file cannot be opened or read.
  \<^verbatim>\<open>open(file_path, 'r')\<close> opens the file as text: \<^verbatim>\<open>read()\<close> then decodes the
  bytes with the encoding of the locale and translates the line ends, and raises when
  the bytes do not decode. The parameter \<open>decode\<close> is this conversion, \<open>None\<close> when
  it fails.
\<close>

definition read_bytes :: "string option \<Rightarrow> error + string" where
  "read_bytes content = (case content of None \<Rightarrow> Inl OSError | Some data \<Rightarrow> Inr data)"

definition read_text :: "(string \<Rightarrow> string option) \<Rightarrow> string option \<Rightarrow> error + string" where
  "read_text decode content =
     (case read_bytes content of
        Inl e \<Rightarrow> Inl e
      | Inr data \<Rightarrow> (case decode data of None \<Rightarrow> Inl ValueError | Some code \<Rightarrow> Inr code))"

text \<open>
  \<^verbatim>\<open>read_directory\<close>: the body of the inner loop is a \<^verbatim>\<open>try\<close> whose
  \<^verbatim>\<open>except: pass\<close> drops every exception of \<^verbatim>\<open>open\<close> and \<^verbatim>\<open>read\<close>;
  \<open>files_list\<close> is the list the loops append to. The call of \<^verbatim>\<open>os.walk\<close> is
  outside the \<^verbatim>\<open>try\<close>.
\<close>

fun read_files :: "(string \<Rightarrow> string option) \<Rightarrow> string \<Rightarrow> (string \<times> string option) list \<Rightarrow>
    json list \<Rightarrow> json list" where
  "read_files decode root [] files_list = files_list"
| "read_files decode root ((file, content) # files) files_list =
     (case read_text decode content of
        Inl e \<Rightarrow> read_files decode root files files_list
      | Inr code \<Rightarrow>
          read_files decode root files
            (files_list @ [JObj [(''filename'', JStr (path_join root file)), (''code'', JStr code)]]))"

fun read_walk :: "(string \<Rightarrow> string option) \<Rightarrow> walk_entry list \<Rightarrow> json list \<Rightarrow> json list" where
  "read_walk decode [] files_list = files_list"
| "read_walk decode ((root, dirs, files) # rest) files_list =
     read_walk decode rest (read_files decode root files files_list)"

definition read_directory :: "(string \<Rightarrow> string option) \<Rightarrow> string \<Rightarrow> node \<Rightarrow> error + json list" where
  "read_directory decode directory_path fs =
     (case os_walk directory_path fs of
        Inl e \<Rightarrow> Inl e
      | Inr entries \<Rightarrow> Inr (read_walk decode entries []))"

section \<open>Files opened for writing\<close>

text \<open>
  Whether a file can be created and written is a matter of the file system: the
  parameters \<open>open_w\<close> and \<open>close_w\<close> of the two functions that write a file give,
  for a path, \<open>None\<close> when opening it for writing (when flushing and closing it)
  returns and the exception when it raises. Python refuses a path with a null
  character in it before it asks the file system.

  \<^verbatim>\<open>with open(...) as f: body\<close>: when opening raises, the body does not run;
  otherwise the file is closed when the body is left, by a return or by an exception,
  and an exception of the closing replaces the outcome of the body.
\<close>

definition open_path :: "(string \<Rightarrow> error option) \<Rightarrow> string \<Rightarrow> error option" where
  "open_path open_w path = (if CHR 0x00 \<in> set path then Some ValueError else open_w path)"

definition with_file :: "error option \<Rightarrow> error option \<Rightarrow> error + 'a \<Rightarrow> error + 'a" where
  "with_file opened closed body =
     (case opened of
        Some e \<Rightarrow> Inl e
      | None \<Rightarrow> (case closed of Some e \<Rightarrow> Inl e | None \<Rightarrow> body))"

section \<open>Zip export (project.py)\<close>

definition get_project_path :: "string \<Rightarrow> string \<Rightarrow> string" where
  "get_project_path project_path p =
     path_join project_path (replace_char CHR '' '' CHR ''-'' (lower p))"

text \<open>
  \<^verbatim>\<open>ZipFile.write(filename, arcname)\<close> normalises the name of the entry with
  \<^verbatim>\<open>normpath\<close>, strips leading separators (\<^verbatim>\<open>arcname[0]\<close> raises on an empty
  name) and reads the bytes of the file; nothing catches an error here. The archive
  is the list of its entries, name and content, in the order they are written.
\<close>

fun strip_seps :: "string \<Rightarrow> error + string" where
  "strip_seps [] = Inl IndexError"
| "strip_seps (c # cs) = (if c = CHR ''/'' then strip_seps cs else Inr (c # cs))"

definition zip_write :: "string option \<Rightarrow> string \<Rightarrow> (string \<times> string) list \<Rightarrow> error + (string \<times> string) list" where
  "zip_write content arcname zipf =
     (case strip_seps (normpath arcname) of
        Inl e \<Rightarrow> Inl e
      | Inr name \<Rightarrow>
          (case read_bytes content of
             Inl e \<Rightarrow> Inl e
           | Inr data \<Rightarrow> Inr (zipf @ [(name, data)])))"

fun zip_files :: "string \<Rightarrow> string \<Rightarrow> string \<Rightarrow> (string \<times> string option) list \<Rightarrow>
    (string \<times> string) list \<Rightarrow> error + (string \<times> string) list" where
  "zip_files cwd project_path root [] zipf = Inr zipf"
| "zip_files cwd project_path root ((file, content) # files) zipf =
     (case relpath cwd (path_join root file) (path_join project_path ''..'') of
        Inl e \<Rightarrow> Inl e
      | Inr relative_path \<Rightarrow>
          (case zip_write content relative_path zipf of
             Inl e \<Rightarrow> Inl e
           | Inr zipf' \<Rightarrow> zip_files cwd project_path root files zipf'))"

fun zip_walk :: "string \<Rightarrow> string \<Rightarrow> walk_entry list \<Rightarrow> (string \<times> string) list \<Rightarrow>
    error + (string \<times> string) list" where
  "zip_walk cwd project_path [] zipf = Inr zipf"
| "zip_walk cwd project_path ((root, dirs, files) # rest) zipf =
     (case zip_files cwd project_path root files zipf of
        Inl e \<Rightarrow> Inl e
      | Inr zipf' \<Rightarrow> zip_walk cwd project_path rest zipf')"

text \<open>
  \<^verbatim>\<open>project_to_zip\<close> opens the archive with \<^verbatim>\<open>zipfile.ZipFile(zip_path, 'w', ...)\<close>
  before the walk, and the \<^verbatim>\<open>with\<close> statement closes it after the walk, also
  when the walk raised. It returns \<open>zip_path\<close>; the model returns with it the
  archive written at that path.
\<close>

definition project_to_zip :: "(string \<Rightarrow> error option) \<Rightarrow> (string \<Rightarrow> error option) \<Rightarrow>
    string \<Rightarrow> string \<Rightarrow> string \<Rightarrow> node \<Rightarrow> error + string \<times> (string \<times> string) list" where
  "project_to_zip open_w close_w cwd projects_dir p fs =
     (let project_path = get_project_path projects_dir p;
          zip_path = project_path @ ''.zip''
      in with_file (open_path open_w zip_path) (close_w zip_path)
           (case os_walk project_path fs of
              Inl e \<Rightarrow> Inl e
            | Inr entries \<Rightarrow>
                (case zip_walk cwd project_path entries [] of
                   Inl e \<Rightarrow> Inl e
                 | Inr zipf \<Rightarrow> Inr (zip_path, zipf))))"

section \<open>PDF conversion (documenter/pdf.py)\<close>

text \<open>
  The converter of markdown to HTML and \<^verbatim>\<open>pisa.CreatePDF\<close> are libraries: they are
  the parameters \<open>markdown\<close> and \<open>CreatePDF\<close>, each returning its value or raising,
  and \<open>pdf_path\<close> is the configured directory. \<open>CreatePDF\<close> gets the HTML and the
  file it writes to, and \<open>err\<close> is the error count of the status it returns. The
  status is tested after the \<^verbatim>\<open>with\<close> statement has closed the file.
\<close>

record pisa_status =
  err :: int

definition markdown_to_pdf :: "string \<Rightarrow> (string \<Rightarrow> error + string) \<Rightarrow>
    (string \<Rightarrow> error option) \<Rightarrow> (string \<Rightarrow> string \<Rightarrow> error + pisa_status) \<Rightarrow>
    (string \<Rightarrow> error option) \<Rightarrow> string \<Rightarrow> string \<Rightarrow> error + string" where
  "markdown_to_pdf pdf_path markdown open_w CreatePDF close_w markdown_string p =
     (case markdown markdown_string of
        Inl e \<Rightarrow> Inl e
      | Inr html_string \<Rightarrow>
          (let out_file_path = path_join pdf_path (p @ ''.pdf'')
           in case with_file (open_path open_w out_file_path) (close_w out_file_path)
                     (CreatePDF html_string out_file_path) of
                Inl e \<Rightarrow> Inl e
              | Inr pisa_status \<Rightarrow>
                  if err pisa_status \<noteq> 0 then Inl (Exception ''Error generating PDF'')
                  else Inr out_file_path))"


section \<open>Facts about the table primitives\<close>

lemma first_state_project: "first_state p db = Some r \<Longrightarrow> project r = p"
  by (auto simp: first_state_def find_Some_iff)

lemma first_state_commit:
  "first_state p db = Some r \<Longrightarrow>
   first_state p (commit_state_row p stack db) = Some (r\<lparr>state_stack_json := stack\<rparr>)"
  by (induction db) (auto simp: first_state_def)

lemma first_state_commit_other:
  "q \<noteq> p \<Longrightarrow> first_state q (commit_state_row p stack db) = first_state q db"
  by (induction db) (auto simp: first_state_def)

lemma find_snoc:
  "find P (xs @ [y]) = (case find P xs of None \<Rightarrow> (if P y then Some y else None) | Some x \<Rightarrow> Some x)"
  by (induction xs) auto

lemma first_state_add_None:
  "first_state p db = None \<Longrightarrow>
   first_state p (add_state_row p stack db) =
     Some \<lparr>row_id = next_state_id db, project = p, state_stack_json = stack\<rparr>"
  by (simp add: first_state_def add_state_row_def find_snoc)

lemma first_state_add_other:
  "q \<noteq> p \<Longrightarrow> first_state q (add_state_row p stack db) = first_state q db"
  by (simp add: first_state_def add_state_row_def find_snoc split: option.splits)

lemma get_current_state_commit:
  "first_state p db = Some r \<Longrightarrow>
   get_current_state p (commit_state_row p stack db) = Some stack"
  by (simp add: get_current_state_def first_state_commit)

lemma get_current_state_add:
  "first_state p db = None \<Longrightarrow>
   get_current_state p (add_state_row p stack db) = Some stack"
  by (simp add: get_current_state_def first_state_add_None)

section \<open>Lengths of the snapshot sequence\<close>

text \<open>
  Claim C2. For a project whose snapshot sequence is not empty, \<open>update_latest_state\<close>
  succeeds and leaves the length of the sequence as it was. For every project,
  \<open>add_to_current_state\<close> makes the sequence exactly one longer, where a project
  without a row counts as length 0.
\<close>

theorem C2_update_keeps_length_append_adds_one:
  "(stack_length p db \<noteq> 0 \<longrightarrow>
      (\<exists>db'. update_latest_state p state db = Inr db' \<and> stack_length p db' = stack_length p db))
   \<and> stack_length p (add_to_current_state p state db) = stack_length p db + 1"
proof (cases "first_state p db")
  case None
  then show ?thesis
    by (simp add: stack_length_def get_current_state_def add_to_current_state_def
        first_state_add_None)
next
  case (Some r)
  then show ?thesis
    by (simp add: stack_length_def get_current_state_def add_to_current_state_def
        update_latest_state_def set_last_def first_state_commit)
qed

theorem C2_witness:
  "stack_length ''demo'' (add_to_current_state ''demo'' JNull []) \<noteq> 0
   \<and> (\<exists>db'. update_latest_state ''demo'' (new_state ''t'') (add_to_current_state ''demo'' JNull []) = Inr db'
        \<and> stack_length ''demo'' db' = 1)
   \<and> stack_length ''demo'' (add_to_current_state ''demo'' JNull []) = 1"
  using C2_update_keeps_length_append_adds_one
    [of "''demo''" "add_to_current_state ''demo'' JNull []" "new_state ''t''"]
    C2_update_keeps_length_append_adds_one [of "''demo''" "[]" JNull]
  by (simp add: stack_length_def get_current_state_def first_state_def)

section \<open>The last snapshot and its fields\<close>


lemma dict_get_set_same: "dict_get k (dict_set k v d) = Some v"
  by (induction d) auto

lemma dict_get_set_other: "k' \<noteq> k \<Longrightarrow> dict_get k' (dict_set k v d) = dict_get k' d"
  by (induction d) auto

lemma getitem_setitem_same: "setitem s k v = Inr s' \<Longrightarrow> getitem s' k = Inr v"
  by (cases s) (auto simp: dict_get_set_same)

lemma getitem_setitem_other:
  "setitem s k v = Inr s' \<Longrightarrow> k' \<noteq> k \<Longrightarrow> getitem s' k' = getitem s k'"
  by (cases s) (auto simp: dict_get_set_other)

lemma setitem_ok_iff: "(\<exists>s'. setitem s k v = Inr s') \<longleftrightarrow> (\<exists>d. s = JObj d)"
  by (cases s) auto

lemma getitem_Inr_setitem: "getitem s k = Inr old \<Longrightarrow> \<exists>s'. setitem s k v = Inr s'"
  by (cases s) auto

lemma read_last_snoc: "read_last (xs @ [s]) k = getitem s k"
  by (simp add: read_last_def get_last_def)

lemma add_last_result:
  "read_last stack k = Inr (JInt n) \<Longrightarrow>
   \<exists>s'. add_last stack k m = Inr (butlast stack @ [s']) \<and> getitem s' k = Inr (JInt (n + m))"
  unfolding read_last_def add_last_def get_last_def
  by (cases "last stack") (auto simp: dict_get_set_same split: if_splits option.splits)

lemma patch_last_new_state:
  "patch_last [new_state t] k v = Inr [JObj (dict_set k v (case new_state t of JObj d \<Rightarrow> d))]"
  by (simp add: patch_last_def get_last_def new_state_def)

text \<open>
  Claim C3. When a state log exists for the project and its latest token usage is the
  integer \<open>n\<close>, \<open>update_token_usage\<close> with \<open>k\<close> succeeds and the latest token usage
  is \<open>n + k\<close> afterwards. When no state log exists, it succeeds and the latest token
  usage is \<open>k\<close> afterwards.
\<close>
theorem C3_token_usage_additive:
  "(\<forall>n. get_current_state p db \<noteq> None \<and> get_latest_token_usage p db = Inr (JInt n) \<longrightarrow>
      (\<exists>db'. update_token_usage p k timestamp db = Inr db'
          \<and> get_latest_token_usage p db' = Inr (JInt (n + k))))
   \<and> (get_current_state p db = None \<longrightarrow>
      (\<exists>db'. update_token_usage p k timestamp db = Inr db'
          \<and> get_latest_token_usage p db' = Inr (JInt k)))"
proof (cases "first_state p db")
  case None
  have "patch_last [new_state timestamp] ''token_usage'' (JInt k) =
        Inr [JObj (dict_set ''token_usage'' (JInt k) (case new_state timestamp of JObj d \<Rightarrow> d))]"
    by (rule patch_last_new_state)
  with None show ?thesis
    by (simp add: get_current_state_def update_token_usage_def get_latest_token_usage_def
        first_state_add_None read_last_def get_last_def dict_get_set_same)
next
  case (Some r)
  show ?thesis
  proof (intro conjI allI impI)
    fix n
    assume "get_current_state p db \<noteq> None \<and> get_latest_token_usage p db = Inr (JInt n)"
    with Some have rd: "read_last (state_stack_json r) ''token_usage'' = Inr (JInt n)"
      by (simp add: get_latest_token_usage_def)
    from add_last_result [OF rd, of k] obtain s' where
      s': "add_last (state_stack_json r) ''token_usage'' k = Inr (butlast (state_stack_json r) @ [s'])"
          "getitem s' ''token_usage'' = Inr (JInt (n + k))"
      by blast
    with Some show "\<exists>db'. update_token_usage p k timestamp db = Inr db'
          \<and> get_latest_token_usage p db' = Inr (JInt (n + k))"
      by (simp add: update_token_usage_def get_latest_token_usage_def first_state_commit read_last_snoc)
  next
    assume "get_current_state p db = None"
    with Some show "\<exists>db'. update_token_usage p k timestamp db = Inr db'
          \<and> get_latest_token_usage p db' = Inr (JInt k)"
      by (simp add: get_current_state_def)
  qed
qed


lemma patch_last_Inr:
  "patch_last stack key v = Inr stack' \<Longrightarrow>
   \<exists>s'. stack' = butlast stack @ [s'] \<and> setitem (last stack) key v = Inr s'"
  by (auto simp: patch_last_def get_last_def split: if_splits sum.splits)

lemma add_last_Inr:
  "add_last stack key n = Inr stack' \<Longrightarrow>
   \<exists>s' new. stack' = butlast stack @ [s'] \<and> setitem (last stack) key new = Inr s'"
  by (auto simp: add_last_def get_last_def split: if_splits sum.splits)

lemma run_patch_Inr:
  assumes "first_state p db = Some r" and "run_patch op p timestamp db = Inr db'"
  shows "\<exists>s' v. db' = commit_state_row p (butlast (state_stack_json r) @ [s']) db
           \<and> setitem (last (state_stack_json r)) (patch_field op) v = Inr s'"
proof (cases op)
  case (PatchActive b)
  with assms show ?thesis
    by (auto simp: set_agent_active_def split: sum.splits dest!: patch_last_Inr)
next
  case (PatchCompleted b)
  with assms show ?thesis
    by (auto simp: set_agent_completed_def split: sum.splits dest!: patch_last_Inr)
next
  case (PatchTokenUsage n)
  with assms show ?thesis
    by (auto simp: update_token_usage_def split: sum.splits dest!: add_last_Inr)
qed

lemma commit_state_row_ids:
  "map row_id (commit_state_row p stack db) = map row_id db
   \<and> map project (commit_state_row p stack db) = map project db"
  by (induction db) auto

lemma get_current_state_commit_other:
  "q \<noteq> p \<Longrightarrow> get_current_state q (commit_state_row p stack db) = get_current_state q db"
  by (simp add: get_current_state_def first_state_commit_other)

text \<open>
  Claim C4. For a project whose snapshot sequence is not empty, each of
  \<open>set_agent_active\<close>, \<open>set_agent_completed\<close> and \<open>update_token_usage\<close> that commits
  leaves all snapshots before the last one as they were and in their order, changes
  no field of the last snapshot other than its own, and changes no other project.
\<close>
theorem C4_patch_frame:
  assumes "get_current_state p db = Some stack" and "stack \<noteq> []"
    and "run_patch op p timestamp db = Inr db'"
  shows "\<exists>s'. get_current_state p db' = Some (butlast stack @ [s'])
           \<and> (\<forall>k. k \<noteq> patch_field op \<longrightarrow> getitem s' k = getitem (last stack) k)
           \<and> (\<forall>q. q \<noteq> p \<longrightarrow> get_current_state q db' = get_current_state q db)
           \<and> map project db' = map project db"
proof -
  from assms(1) obtain r where r: "first_state p db = Some r" "state_stack_json r = stack"
    by (auto simp: get_current_state_def split: option.splits)
  from run_patch_Inr [OF r(1) assms(3)] r(2) obtain s' v where
    s': "db' = commit_state_row p (butlast stack @ [s']) db"
        "setitem (last stack) (patch_field op) v = Inr s'"
    by auto
  have "get_current_state p db' = Some (butlast stack @ [s'])"
    using r(1) s'(1) by (simp add: get_current_state_commit)
  moreover have "\<forall>k. k \<noteq> patch_field op \<longrightarrow> getitem s' k = getitem (last stack) k"
    using s'(2) by (simp add: getitem_setitem_other)
  moreover have "\<forall>q. q \<noteq> p \<longrightarrow> get_current_state q db' = get_current_state q db"
    using s'(1) by (simp add: get_current_state_commit_other)
  moreover have "map project db' = map project db"
    using s'(1) by (simp add: commit_state_row_ids)
  ultimately show ?thesis by blast
qed

lemma stacks_nonempty_commit:
  "stacks_nonempty db \<Longrightarrow> stack \<noteq> [] \<Longrightarrow> stacks_nonempty (commit_state_row p stack db)"
  by (induction db) (auto simp: stacks_nonempty_def)

lemma stacks_nonempty_add:
  "stacks_nonempty db \<Longrightarrow> stack \<noteq> [] \<Longrightarrow> stacks_nonempty (add_state_row p stack db)"
  by (simp add: stacks_nonempty_def add_state_row_def)

lemma stacks_nonempty_delete:
  "stacks_nonempty db \<Longrightarrow> stacks_nonempty (delete_state_row p db)"
  by (induction db) (auto simp: stacks_nonempty_def)

lemma stacks_nonempty_first:
  "stacks_nonempty db \<Longrightarrow> first_state p db = Some r \<Longrightarrow> state_stack_json r \<noteq> []"
  by (auto simp: stacks_nonempty_def first_state_def find_Some_iff list_all_iff)

lemma patch_last_nonempty: "patch_last stack key v = Inr stack' \<Longrightarrow> stack' \<noteq> []"
  by (auto dest: patch_last_Inr)

lemma add_last_nonempty: "add_last stack key n = Inr stack' \<Longrightarrow> stack' \<noteq> []"
  by (auto dest: add_last_Inr)

lemma set_last_nonempty: "set_last stack v = Inr stack' \<Longrightarrow> stack' \<noteq> []"
  by (auto simp: set_last_def split: if_splits)

lemma apply_op_nonempty:
  assumes "stacks_nonempty db" and "apply_op op db = Inr db'"
  shows "stacks_nonempty db'"
proof (cases op)
  case (DeleteState p)
  with assms show ?thesis
    by (auto simp: delete_state_def stacks_nonempty_delete split: option.splits)
next
  case (AddToCurrentState p state)
  with assms show ?thesis
    by (auto simp: add_to_current_state_def stacks_nonempty_commit stacks_nonempty_add
        split: option.splits)
next
  case (UpdateLatestState p state)
  with assms show ?thesis
    by (auto simp: update_latest_state_def stacks_nonempty_commit stacks_nonempty_add
        set_last_nonempty split: option.splits sum.splits)
next
  case (SetAgentActive p b t)
  with assms show ?thesis
    by (auto simp: set_agent_active_def stacks_nonempty_commit stacks_nonempty_add
        patch_last_nonempty split: option.splits sum.splits)
next
  case (SetAgentCompleted p b t)
  with assms show ?thesis
    by (auto simp: set_agent_completed_def stacks_nonempty_commit stacks_nonempty_add
        patch_last_nonempty split: option.splits sum.splits)
next
  case (UpdateTokenUsage p n t)
  with assms show ?thesis
    by (auto simp: update_token_usage_def stacks_nonempty_commit stacks_nonempty_add
        patch_last_nonempty add_last_nonempty split: option.splits sum.splits)
qed

lemma run_ops_nonempty: "stacks_nonempty db \<Longrightarrow> stacks_nonempty (run_ops ops db)"
  by (induction ops arbitrary: db) (auto split: sum.splits dest: apply_op_nonempty)

lemma read_last_no_IndexError: "stack \<noteq> [] \<Longrightarrow> read_last stack key \<noteq> Inl IndexError"
  by (cases "last stack") (auto simp: read_last_def get_last_def split: option.splits)

text \<open>
  Claim C10. Every table reached from the empty table by operations of \<open>AgentState\<close>
  has only non-empty snapshot stacks; every operation keeps this; and on such a table
  \<open>get_latest_state\<close>, \<open>is_agent_active\<close>, \<open>is_agent_completed\<close> and
  \<open>get_latest_token_usage\<close> never raise \<open>IndexError\<close>.
\<close>
theorem C10_stacks_nonempty:
  "stacks_nonempty (run_ops ops [])
   \<and> (\<forall>db op db'. stacks_nonempty db \<and> apply_op op db = Inr db' \<longrightarrow> stacks_nonempty db')
   \<and> (\<forall>db p. stacks_nonempty db \<longrightarrow>
         get_latest_state p db \<noteq> Inl IndexError
       \<and> is_agent_active p db \<noteq> Inl IndexError
       \<and> is_agent_completed p db \<noteq> Inl IndexError
       \<and> get_latest_token_usage p db \<noteq> Inl IndexError)"
proof (intro conjI allI impI)
  show "stacks_nonempty (run_ops ops [])"
    by (rule run_ops_nonempty) (simp add: stacks_nonempty_def)
next
  fix db op db'
  assume "stacks_nonempty db \<and> apply_op op db = Inr db'"
  then show "stacks_nonempty db'" by (auto dest: apply_op_nonempty)
next
  fix db p
  assume inv: "stacks_nonempty db"
  show "get_latest_state p db \<noteq> Inl IndexError"
    using inv by (auto simp: get_latest_state_def get_last_def split: option.splits
        dest: stacks_nonempty_first)
  show "is_agent_active p db \<noteq> Inl IndexError"
    using inv by (auto simp: is_agent_active_def read_last_no_IndexError split: option.splits
        dest: stacks_nonempty_first)
  show "is_agent_completed p db \<noteq> Inl IndexError"
    using inv by (auto simp: is_agent_completed_def read_last_no_IndexError split: option.splits
        dest: stacks_nonempty_first)
  show "get_latest_token_usage p db \<noteq> Inl IndexError"
    using inv by (auto simp: get_latest_token_usage_def read_last_no_IndexError split: option.splits
        dest: stacks_nonempty_first)
qed


lemma first_project_commit:
  "first_project p db = Some r \<Longrightarrow>
   first_project p (commit_project_row p stack db) = Some (r\<lparr>message_stack_json := stack\<rparr>)"
  by (induction db) (auto simp: first_project_def)

lemma first_project_add:
  "first_project q (add_project_row p stack db) =
     (case first_project q db of
        Some r \<Rightarrow> Some r
      | None \<Rightarrow> if p = q
                then Some \<lparr>projects_id = next_project_id db, projects_project = p,
                           message_stack_json = stack\<rparr>
                else None)"
  by (simp add: first_project_def add_project_row_def find_snoc)

lemma get_messages_add_message:
  "get_messages p (add_message_to_project p m db) =
     Some (case get_messages p db of None \<Rightarrow> [m] | Some ms \<Rightarrow> ms @ [m])"
  by (simp add: get_messages_def add_message_to_project_def first_project_commit
      first_project_add split: option.splits)

lemma get_messages_add_messages:
  "get_messages p db = Some ms0 \<Longrightarrow> get_messages p (add_messages p ms db) = Some (ms0 @ ms)"
  by (induction ms arbitrary: db ms0) (simp_all add: get_messages_add_message)

lemma get_messages_create_fresh:
  "get_messages p db = None \<Longrightarrow> get_messages p (create_project p db) = Some []"
  by (simp add: get_messages_def create_project_def first_project_add split: option.splits)

text \<open>
  Claim C5. For a project that has no row yet, created with \<open>create_project\<close>, any
  sequence of messages appended with \<open>add_message_to_project\<close> is what \<open>get_messages\<close>
  returns, in the order of the appends. The same holds when the first append creates
  the project.
\<close>
theorem C5_messages_in_append_order:
  assumes "get_messages p db = None"
  shows "get_messages p (add_messages p ms (create_project p db)) = Some ms
       \<and> (ms \<noteq> [] \<longrightarrow> get_messages p (add_messages p ms db) = Some ms)"
proof
  show "get_messages p (add_messages p ms (create_project p db)) = Some ms"
    using get_messages_add_messages [OF get_messages_create_fresh [OF assms], of ms] by simp
next
  show "ms \<noteq> [] \<longrightarrow> get_messages p (add_messages p ms db) = Some ms"
  proof (cases ms)
    case Nil
    then show ?thesis by simp
  next
    case (Cons m ms')
    have "get_messages p (add_message_to_project p m db) = Some [m]"
      using assms by (simp add: get_messages_add_message)
    from get_messages_add_messages [OF this, of ms'] Cons show ?thesis by simp
  qed
qed

theorem C5_messages_in_append_order_witness:
  "get_messages ''Demo'' [] = None
   \<and> get_messages ''Demo'' (add_messages ''Demo'' [JStr ''hello'', JStr ''hi there'']
        (create_project ''Demo'' [])) = Some [JStr ''hello'', JStr ''hi there'']
   \<and> get_messages ''Demo'' (add_messages ''Demo'' [JStr ''hello'', JStr ''hi there''] [])
        = Some [JStr ''hello'', JStr ''hi there'']"
proof -
  have h: "get_messages ''Demo'' [] = None"
    by (simp add: get_messages_def first_project_def)
  show ?thesis using h C5_messages_in_append_order [OF h, of "[JStr ''hello'', JStr ''hi there'']"] by simp
qed

text \<open>
  Claim C6 as stated fails: creating the project \<open>Demo\<close> twice leaves two rows of that
  name, so the second call is not a no-op.
\<close>
theorem C6_create_project_twice_counterexample:
  "get_project_list (create_project ''Demo'' (create_project ''Demo'' [])) = [''Demo'', ''Demo'']
   \<and> create_project ''Demo'' (create_project ''Demo'' []) \<noteq> create_project ''Demo'' []"
  by (simp add: get_project_list_def create_project_def add_project_row_def)

text \<open>
  Claim C6, as amended. \<open>create_project\<close> never raises and always adds one row with an
  empty message list at the end of the table, also when the name has a row already;
  the messages read for a project that exists are the same afterwards.
\<close>
theorem C6_create_project_adds_row:
  "create_project p db =
     db @ [\<lparr>projects_id = next_project_id db, projects_project = p, message_stack_json = []\<rparr>]
   \<and> get_project_list (create_project p db) = get_project_list db @ [p]
   \<and> (get_messages p db \<noteq> None \<longrightarrow> get_messages p (create_project p db) = get_messages p db)"
  by (auto simp: create_project_def add_project_row_def get_project_list_def get_messages_def
      first_project_def find_snoc split: option.splits)

theorem C6_create_project_adds_row_witness:
  "get_messages ''Demo'' (add_message_to_project ''Demo'' (JStr ''hello'') []) \<noteq> None
   \<and> get_messages ''Demo'' (create_project ''Demo'' (add_message_to_project ''Demo'' (JStr ''hello'') []))
       = Some [JStr ''hello'']
   \<and> get_project_list (create_project ''Demo'' (add_message_to_project ''Demo'' (JStr ''hello'') []))
       = [''Demo'', ''Demo'']"
  using C6_create_project_adds_row [of "''Demo''" "add_message_to_project ''Demo'' (JStr ''hello'') []"]
  by (simp add: get_messages_def add_message_to_project_def first_project_def add_project_row_def
      get_project_list_def)

text \<open>
  Claim C1 as stated fails: a message sent to the project \<open>Demo\<close>, which has no
  execution-state row, starts no thread.
\<close>
theorem C1_no_state_no_task_counterexample:
  "threads (snd (send_message ''2024-01-01 00:00:00''
      \<lparr>message = JStr ''hello'', project_name = ''Demo'', base_model = JStr ''model''\<rparr>
      \<lparr>projects_db = [], agent_state_db = [], threads = []\<rparr>)) = []"
  by (simp add: send_message_def new_message_def is_agent_completed_def first_state_def)

text \<open>
  Claim C1, as amended. For a project without an execution-state row,
  \<open>is_agent_completed\<close> returns \<open>None\<close>, which is falsy, and \<open>send_message\<close> appends
  the user's message to the project's messages, answers, and starts no thread.
\<close>
theorem C1_send_message_without_state:
  assumes "get_current_state (project_name data) (agent_state_db sys) = None"
  shows "is_agent_completed (project_name data) (agent_state_db sys) = Inr JNull
       \<and> \<not> truthy JNull
       \<and> send_message timestamp data sys =
           (Inr (JObj [(''message'', JStr ''Message sent'')]),
            sys\<lparr>projects_db := add_message_to_project (project_name data)
                   (JObj [(''from_devika'', JBool False), (''message'', message data),
                      (''timestamp'', JStr timestamp)]) (projects_db sys)\<rparr>)"
  using assms
  by (simp add: send_message_def new_message_def is_agent_completed_def get_current_state_def
      split: option.splits)

theorem C1_send_message_without_state_witness:
  "get_current_state ''Demo'' [] = None
   \<and> is_agent_completed ''Demo'' [] = Inr JNull
   \<and> threads (snd (send_message ''t''
        \<lparr>message = JStr ''hello'', project_name = ''Demo'', base_model = JStr ''model''\<rparr>
        \<lparr>projects_db = [], agent_state_db = [], threads = []\<rparr>)) = []
   \<and> get_messages ''Demo'' (projects_db (snd (send_message ''t''
        \<lparr>message = JStr ''hello'', project_name = ''Demo'', base_model = JStr ''model''\<rparr>
        \<lparr>projects_db = [], agent_state_db = [], threads = []\<rparr>)))
      = Some [JObj [(''from_devika'', JBool False), (''message'', JStr ''hello''),
                (''timestamp'', JStr ''t'')]]"
proof -
  have h: "get_current_state (project_name \<lparr>message = JStr ''hello'', project_name = ''Demo'', base_model = JStr ''model''\<rparr>)
             (agent_state_db \<lparr>projects_db = [], agent_state_db = [], threads = []\<rparr>) = None"
    by (simp add: get_current_state_def first_state_def)
  have g: "get_messages ''Demo'' [] = None"
    by (simp add: get_messages_def first_project_def)
  show ?thesis
    using h C1_send_message_without_state [OF h, of "''t''"]
    by (simp add: get_messages_add_message g)
qed

lemma send_message_launch:
  "is_agent_completed (project_name data) (agent_state_db sys) = Inr c \<Longrightarrow>
   threads (snd (send_message timestamp data sys)) =
     (if truthy c
      then threads sys @ [SubsequentExecute (base_model data) (message data) (project_name data)]
      else threads sys)"
  by (simp add: send_message_def new_message_def)

theorem C3_token_usage_witness:
  "get_current_state ''p'' (add_to_current_state ''p'' (new_state ''t'') []) \<noteq> None
   \<and> get_latest_token_usage ''p'' (add_to_current_state ''p'' (new_state ''t'') []) = Inr (JInt 0)
   \<and> (\<exists>db'. update_token_usage ''p'' 5 ''t'' (add_to_current_state ''p'' (new_state ''t'') []) = Inr db'
          \<and> get_latest_token_usage ''p'' db' = Inr (JInt 5))
   \<and> get_current_state ''p'' [] = None
   \<and> (\<exists>db'. update_token_usage ''p'' 7 ''t'' [] = Inr db'
          \<and> get_latest_token_usage ''p'' db' = Inr (JInt 7))"
  using C3_token_usage_additive [of "''p''" "add_to_current_state ''p'' (new_state ''t'') []" 5 "''t''"]
    C3_token_usage_additive [of "''p''" "[]" 7 "''t''"]
  by (simp add: get_current_state_def get_latest_token_usage_def add_to_current_state_def
      first_state_def add_state_row_def read_last_def get_last_def new_state_def)

theorem C4_patch_frame_witness:
  "get_current_state ''p'' (add_to_current_state ''p'' (new_state ''t'')
       (add_to_current_state ''p'' (JStr ''first'') [])) = Some [JStr ''first'', new_state ''t'']
   \<and> [JStr ''first'', new_state ''t''] \<noteq> []
   \<and> (\<exists>db'. run_patch (PatchTokenUsage 5) ''p'' ''u'' (add_to_current_state ''p'' (new_state ''t'')
       (add_to_current_state ''p'' (JStr ''first'') [])) = Inr db'
      \<and> (\<exists>s'. get_current_state ''p'' db' = Some [JStr ''first'', s']
           \<and> getitem s' ''completed'' = Inr (JBool False)))"
proof -
  let ?db = "add_to_current_state ''p'' (new_state ''t'') (add_to_current_state ''p'' (JStr ''first'') [])"
  have h1: "get_current_state ''p'' ?db = Some [JStr ''first'', new_state ''t'']"
    by (simp add: get_current_state_def add_to_current_state_def first_state_def add_state_row_def)
  have h2: "[JStr ''first'', new_state ''t''] \<noteq> []" by simp
  obtain db' where h3: "run_patch (PatchTokenUsage 5) ''p'' ''u'' ?db = Inr db'"
    by (simp add: update_token_usage_def add_to_current_state_def first_state_def add_state_row_def
        add_last_def get_last_def new_state_def)
  from C4_patch_frame [OF h1 h2 h3] obtain s' where
    "get_current_state ''p'' db' = Some (butlast [JStr ''first'', new_state ''t''] @ [s'])"
    "\<forall>k. k \<noteq> patch_field (PatchTokenUsage 5) \<longrightarrow> getitem s' k = getitem (last [JStr ''first'', new_state ''t'']) k"
    by blast
  then have "get_current_state ''p'' db' = Some [JStr ''first'', s']
           \<and> getitem s' ''completed'' = Inr (JBool False)"
    by (simp add: new_state_def)
  with h1 h2 h3 show ?thesis by blast
qed

theorem C10_stacks_nonempty_witness:
  "stacks_nonempty (run_ops [UpdateTokenUsage ''p'' 5 ''t'', AddToCurrentState ''p'' JNull,
       SetAgentCompleted ''p'' True ''u'', DeleteState ''q''] [])
   \<and> get_latest_state ''p'' (run_ops [UpdateTokenUsage ''p'' 5 ''t'', AddToCurrentState ''p'' JNull,
       SetAgentCompleted ''p'' True ''u'', DeleteState ''q''] []) = Inr JNull"
proof -
  let ?ops = "[UpdateTokenUsage ''p'' 5 ''t'', AddToCurrentState ''p'' JNull,
       SetAgentCompleted ''p'' True ''u'', DeleteState ''q'']"
  have "stacks_nonempty (run_ops ?ops [])" using C10_stacks_nonempty [of ?ops] by blast
  moreover have "get_latest_state ''p'' (run_ops ?ops []) = Inr JNull"
    by (simp add: update_token_usage_def add_to_current_state_def set_agent_completed_def
        delete_state_def first_state_def add_state_row_def patch_last_def get_last_def
        new_state_def get_latest_state_def)
  ultimately show ?thesis by blast
qed

section \<open>Splitting and normalising paths\<close>


































text \<open>
  Lower-casing reaches the accented capital letters: the name of the characters
  U+00C4, \<open>B\<close>, space, \<open>C\<close> gives the directory name U+00E4, \<open>b\<close>, hyphen, \<open>c\<close>, and
  the multiplication sign U+00D7 stays.
\<close>

lemma lower_accented_example:
  "replace_char CHR '' '' CHR ''-'' (lower [CHR 0xC4, CHR ''B'', CHR '' '', CHR ''C''])
     = [CHR 0xE4, CHR ''b'', CHR ''-'', CHR ''c'']
   \<and> lower [CHR 0xD7, CHR 0xDE, CHR 0xDF, CHR ''Z'', CHR ''['', CHR ''@''] =
       [CHR 0xD7, CHR 0xFE, CHR 0xDF, CHR ''z'', CHR ''['', CHR ''@'']"
  by (simp add: lower_def replace_char_def)


lemma with_file_Inl: "\<exists>e'. with_file opened closed (Inl e) = Inl e'"
  by (simp add: with_file_def split: option.splits)





lemma read_files_append:
  "read_files decode root files files_list =
     files_list @ concat (map (\<lambda>(file, content).
        case content of
          None \<Rightarrow> []
        | Some data \<Rightarrow>
            (case decode data of
               None \<Rightarrow> []
             | Some code \<Rightarrow>
                 [JObj [(''filename'', JStr (path_join root file)), (''code'', JStr code)]]))
        files)"
  by (induction files arbitrary: files_list)
     (auto simp: read_text_def read_bytes_def split: option.splits)

lemma read_walk_append:
  "read_walk decode entries files_list =
     files_list @ concat (map (\<lambda>(root, dirs, files). read_files decode root files []) entries)"
proof (induction entries arbitrary: files_list)
  case Nil
  show ?case by simp
next
  case (Cons e entries)
  obtain root dirs files where e: "e = (root, dirs, files)" by (cases e)
  have split: "read_files decode root files files_list
      = files_list @ read_files decode root files []"
    using read_files_append [of decode root files files_list]
      read_files_append [of decode root files "[]"]
    by simp
  have "read_walk decode (e # entries) files_list
      = read_walk decode entries (read_files decode root files files_list)"
    by (simp add: e)
  also have "\<dots> = read_files decode root files files_list
      @ concat (map (\<lambda>(root, dirs, files). read_files decode root files []) entries)"
    by (rule Cons.IH)
  finally show ?case by (simp add: e split)
qed

text \<open>
  The zip export has no guard around \<^verbatim>\<open>zipf.write\<close>: a file that cannot be read
  ends the loops with an exception, whatever was written before it.
\<close>

lemma zip_files_unreadable:
  "(file, None) \<in> set files \<Longrightarrow> \<exists>e. zip_files cwd project_path root files zipf = Inl e"
proof (induction files arbitrary: zipf)
  case Nil
  then show ?case by simp
next
  case (Cons f files)
  obtain name content where f: "f = (name, content)" by (cases f)
  show ?case
  proof (cases "relpath cwd (path_join root name) (path_join project_path ''..'')")
    case (Inl e)
    then show ?thesis by (simp add: f)
  next
    case (Inr relative_path)
    show ?thesis
    proof (cases "zip_write content relative_path zipf")
      case (Inl e)
      with Inr show ?thesis by (simp add: f)
    next
      case zw: (Inr zipf')
      then have "content \<noteq> None"
        by (auto simp: zip_write_def read_bytes_def split: sum.splits option.splits)
      with Cons.prems f have "(file, None) \<in> set files" by auto
      from Cons.IH [OF this, of zipf'] Inr zw show ?thesis by (simp add: f)
    qed
  qed
qed

lemma zip_walk_unreadable:
  "(root, dirs, files) \<in> set entries \<Longrightarrow> (file, None) \<in> set files \<Longrightarrow>
     \<exists>e. zip_walk cwd project_path entries zipf = Inl e"
proof (induction entries arbitrary: zipf)
  case Nil
  then show ?case by simp
next
  case (Cons en entries)
  obtain root' dirs' files' where en: "en = (root', dirs', files')" by (cases en)
  show ?case
  proof (cases "zip_files cwd project_path root' files' zipf")
    case (Inl e)
    then show ?thesis by (simp add: en)
  next
    case (Inr zipf')
    have "en \<noteq> (root, dirs, files)"
    proof
      assume "en = (root, dirs, files)"
      with en have "files' = files" "root' = root" by simp_all
      with zip_files_unreadable [OF Cons.prems(2), of cwd project_path root zipf] Inr
      show False by simp
    qed
    with Cons.prems(1) have "(root, dirs, files) \<in> set entries" by simp
    from Cons.IH [OF this Cons.prems(2), of zipf'] Inr show ?thesis by (simp add: en)
  qed
qed

text \<open>
  Claim C9 as stated fails for the scan of \<open>project_to_zip\<close>: next to a readable file,
  one file that cannot be read makes it raise, and no archive path is returned.
\<close>
theorem C9_zip_scan_fails_counterexample:
  "project_to_zip (\<lambda>path. None) (\<lambda>path. None) ''/app'' ''data/projects'' ''Demo''
     (Dir [(''a.txt'', File (Some ''A'')), (''x'', File None)]) = Inl OSError"
  by (simp add: project_to_zip_def get_project_path_def lower_def replace_char_def path_join_def
      endswith_sep_def relpath_def abspath_def normpath_def norm_step_def zip_write_def
      read_bytes_def open_path_def with_file_def os_walk_def)

text \<open>
  Claim C9, as amended. For every directory (its path has no null character)
  \<open>read_directory\<close> returns a list, and the list holds exactly one entry, path and
  text, for each file of the walk that could be opened and read as text, in the order
  of the walk; a file that could not be opened, or whose bytes do not decode, adds
  nothing. The scan of \<open>project_to_zip\<close> is not of this kind: whenever its walk meets
  a file that cannot be opened, \<open>project_to_zip\<close> raises.
\<close>
theorem C9_read_directory_skips_zip_raises:
  "(CHR 0x00 \<notin> set directory_path \<longrightarrow>
      read_directory decode directory_path fs =
        Inr (concat (map (\<lambda>(root, dirs, files).
          concat (map (\<lambda>(file, content).
            case content of
              None \<Rightarrow> []
            | Some data \<Rightarrow>
                (case decode data of
                   None \<Rightarrow> []
                 | Some code \<Rightarrow>
                     [JObj [(''filename'', JStr (path_join root file)), (''code'', JStr code)]]))
            files))
          (walk directory_path fs))))
   \<and> ((\<exists>root dirs files file.
          (root, dirs, files) \<in> set (walk (get_project_path projects_dir p) fs)
          \<and> (file, None) \<in> set files)
        \<longrightarrow> (\<exists>e. project_to_zip open_w close_w cwd projects_dir p fs = Inl e))"
proof (intro conjI impI)
  assume "CHR 0x00 \<notin> set directory_path"
  then show "read_directory decode directory_path fs =
        Inr (concat (map (\<lambda>(root, dirs, files).
          concat (map (\<lambda>(file, content).
            case content of
              None \<Rightarrow> []
            | Some data \<Rightarrow>
                (case decode data of
                   None \<Rightarrow> []
                 | Some code \<Rightarrow>
                     [JObj [(''filename'', JStr (path_join root file)), (''code'', JStr code)]]))
            files))
          (walk directory_path fs)))"
    by (simp add: read_directory_def os_walk_def read_walk_append read_files_append)
next
  let ?pp = "get_project_path projects_dir p"
  let ?body = "case os_walk ?pp fs of
                 Inl e \<Rightarrow> Inl e
               | Inr entries \<Rightarrow>
                   (case zip_walk cwd ?pp entries [] of
                      Inl e \<Rightarrow> Inl e
                    | Inr zipf \<Rightarrow> Inr (?pp @ ''.zip'', zipf))"
  assume "\<exists>root dirs files file.
            (root, dirs, files) \<in> set (walk ?pp fs) \<and> (file, None) \<in> set files"
  then obtain root dirs files name
    where "(root, dirs, files) \<in> set (walk ?pp fs)" "(name, None) \<in> set files"
    by blast
  from zip_walk_unreadable [OF this, of cwd ?pp "[]"]
  obtain e where "zip_walk cwd ?pp (walk ?pp fs) [] = Inl e" ..
  then have "\<exists>e'. ?body = Inl e'"
    by (simp add: os_walk_def)
  then obtain e' where "?body = Inl e'" ..
  then show "\<exists>e. project_to_zip open_w close_w cwd projects_dir p fs = Inl e"
    using with_file_Inl [of "open_path open_w (?pp @ ''.zip'')" "close_w (?pp @ ''.zip'')" e']
    by (simp add: project_to_zip_def Let_def)
qed

theorem C9_read_directory_skips_zip_raises_witness:
  "CHR 0x00 \<notin> set ''data/projects/demo''
   \<and> read_directory (\<lambda>data. if data = ''B'' then None else Some data) ''data/projects/demo''
     (Dir [(''a.txt'', File (Some ''A'')), (''x'', File None), (''l'', Unreadable_Dir),
           (''sub'', Dir [(''b.bin'', File (Some ''B'')), (''c.txt'', File (Some ''C''))])])
   = Inr [JObj [(''filename'', JStr ''data/projects/demo/a.txt''), (''code'', JStr ''A'')],
          JObj [(''filename'', JStr ''data/projects/demo/sub/c.txt''), (''code'', JStr ''C'')]]
   \<and> (\<exists>e. project_to_zip (\<lambda>path. None) (\<lambda>path. None) ''/app'' ''data/projects'' ''Demo''
     (Dir [(''a.txt'', File (Some ''A'')), (''x'', File None), (''l'', Unreadable_Dir),
           (''sub'', Dir [(''b.bin'', File (Some ''B'')), (''c.txt'', File (Some ''C''))])])
      = Inl e)"
proof -
  let ?fs = "Dir [(''a.txt'', File (Some ''A'')), (''x'', File None), (''l'', Unreadable_Dir),
                  (''sub'', Dir [(''b.bin'', File (Some ''B'')), (''c.txt'', File (Some ''C''))])]"
  note c9 = C9_read_directory_skips_zip_raises [of "''data/projects/demo''"
      "\<lambda>data. if data = ''B'' then None else Some data" ?fs "''data/projects''" "''Demo''"
      "\<lambda>path. None" "\<lambda>path. None" "''/app''"]
  have h0: "CHR 0x00 \<notin> set ''data/projects/demo''" by simp
  have h: "\<exists>root dirs files file.
             (root, dirs, files) \<in> set (walk (get_project_path ''data/projects'' ''Demo'') ?fs)
             \<and> (file, None) \<in> set files"
    by (rule exI [of _ "''data/projects/demo''"], rule exI [of _ "[''l'', ''sub'']"],
        rule exI [of _ "[(''a.txt'', Some ''A''), (''x'', None)]"], rule exI [of _ "''x''"])
       (simp add: get_project_path_def lower_def replace_char_def path_join_def endswith_sep_def)
  from c9 h0 have a: "read_directory (\<lambda>data. if data = ''B'' then None else Some data)
        ''data/projects/demo'' ?fs
      = Inr [JObj [(''filename'', JStr ''data/projects/demo/a.txt''), (''code'', JStr ''A'')],
             JObj [(''filename'', JStr ''data/projects/demo/sub/c.txt''), (''code'', JStr ''C'')]]"
    by (simp add: path_join_def endswith_sep_def)
  from c9 h have "\<exists>e. project_to_zip (\<lambda>path. None) (\<lambda>path. None) ''/app'' ''data/projects''
      ''Demo'' ?fs = Inl e"
    by blast
  with a h0 show ?thesis by simp
qed

text \<open>
  A path with a null character names no directory: \<open>read_directory\<close> raises on it,
  and \<open>project_to_zip\<close> raises when it opens the archive.
\<close>

lemma null_character_example:
  "read_directory decode [CHR ''a'', CHR 0x00] fs = Inl ValueError
   \<and> project_to_zip open_w close_w cwd ''data/projects'' [CHR ''a'', CHR 0x00] fs = Inl ValueError"
  by (simp add: read_directory_def os_walk_def project_to_zip_def get_project_path_def
      lower_def replace_char_def path_join_def endswith_sep_def open_path_def with_file_def)

text \<open>
  A file whose bytes do not decode is left out by \<open>read_directory\<close> and is written to
  the archive by \<open>project_to_zip\<close>.
\<close>

lemma undecodable_file_example:
  "read_directory (\<lambda>data. if data = ''B'' then None else Some data) ''data/projects/demo''
     (Dir [(''a.txt'', File (Some ''A'')), (''b.bin'', File (Some ''B''))])
   = Inr [JObj [(''filename'', JStr ''data/projects/demo/a.txt''), (''code'', JStr ''A'')]]
   \<and> project_to_zip (\<lambda>path. None) (\<lambda>path. None) ''/app'' ''data/projects'' ''Demo''
     (Dir [(''a.txt'', File (Some ''A'')), (''b.bin'', File (Some ''B''))])
   = Inr (''data/projects/demo.zip'', [(''demo/a.txt'', ''A''), (''demo/b.bin'', ''B'')])"
  by (simp add: read_directory_def read_text_def read_bytes_def project_to_zip_def
      get_project_path_def lower_def replace_char_def path_join_def endswith_sep_def
      relpath_def abspath_def normpath_def norm_step_def zip_write_def open_path_def
      with_file_def os_walk_def)

text \<open>
  Claim C8 as stated fails: when the output file cannot be opened, \<open>markdown_to_pdf\<close>
  raises although no conversion reported a failure; and for a project name that
  starts with a separator the path returned is not in the configured directory.
\<close>
theorem C8_pdf_open_fails_counterexample:
  "markdown_to_pdf ''data/pdfs'' (\<lambda>s. Inr s) (\<lambda>path. Some OSError)
       (\<lambda>html path. Inr \<lparr>err = 0\<rparr>) (\<lambda>path. None) ''# t'' ''demo'' = Inl OSError
   \<and> markdown_to_pdf ''data/pdfs'' (\<lambda>s. Inr s) (\<lambda>path. None)
       (\<lambda>html path. Inr \<lparr>err = 0\<rparr>) (\<lambda>path. None) ''# t'' ''/tmp/demo'' = Inr ''/tmp/demo.pdf''
   \<and> \<not> startswith ''/tmp/demo.pdf'' ''data/pdfs''"
  by (simp add: markdown_to_pdf_def path_join_def endswith_sep_def open_path_def with_file_def)

text \<open>
  Claim C8, as amended. \<open>markdown_to_pdf\<close> raises if and only if one of its steps
  raises (rendering the markdown, opening the output file, the conversion, closing
  the file) or the status of the conversion reports errors. In the first case the
  exception of the step reaches the caller, in the second the error
  \<^verbatim>\<open>Error generating PDF\<close> does. When every step returns and the status reports no
  error, the result is the path of \<open>p.pdf\<close> joined to the configured directory, which
  for a project name that does not start with a separator is \<open>p.pdf\<close> under that
  directory.
\<close>
theorem C8_pdf_raises_iff_step_or_conversion_fails:
  "((\<exists>e. markdown_to_pdf pdf_path markdown open_w CreatePDF close_w markdown_string p = Inl e)
      \<longleftrightarrow>
        (\<exists>e. markdown markdown_string = Inl e)
        \<or> (\<exists>html. markdown markdown_string = Inr html
              \<and> (open_path open_w (path_join pdf_path (p @ ''.pdf'')) \<noteq> None
                 \<or> close_w (path_join pdf_path (p @ ''.pdf'')) \<noteq> None
                 \<or> (\<exists>e. CreatePDF html (path_join pdf_path (p @ ''.pdf'')) = Inl e)
                 \<or> (\<exists>status. CreatePDF html (path_join pdf_path (p @ ''.pdf'')) = Inr status
                       \<and> err status \<noteq> 0))))
   \<and> (\<forall>html status.
        markdown markdown_string = Inr html
        \<and> open_path open_w (path_join pdf_path (p @ ''.pdf'')) = None
        \<and> CreatePDF html (path_join pdf_path (p @ ''.pdf'')) = Inr status
        \<and> close_w (path_join pdf_path (p @ ''.pdf'')) = None
        \<longrightarrow> markdown_to_pdf pdf_path markdown open_w CreatePDF close_w markdown_string p
              = (if err status \<noteq> 0 then Inl (Exception ''Error generating PDF'')
                 else Inr (path_join pdf_path (p @ ''.pdf''))))
   \<and> (\<forall>e. markdown markdown_string = Inl e
        \<longrightarrow> markdown_to_pdf pdf_path markdown open_w CreatePDF close_w markdown_string p = Inl e)
   \<and> (\<forall>html e.
        markdown markdown_string = Inr html
        \<and> open_path open_w (path_join pdf_path (p @ ''.pdf'')) = Some e
        \<longrightarrow> markdown_to_pdf pdf_path markdown open_w CreatePDF close_w markdown_string p = Inl e)
   \<and> (\<forall>html e.
        markdown markdown_string = Inr html
        \<and> open_path open_w (path_join pdf_path (p @ ''.pdf'')) = None
        \<and> close_w (path_join pdf_path (p @ ''.pdf'')) = Some e
        \<longrightarrow> markdown_to_pdf pdf_path markdown open_w CreatePDF close_w markdown_string p = Inl e)
   \<and> (\<forall>html e.
        markdown markdown_string = Inr html
        \<and> open_path open_w (path_join pdf_path (p @ ''.pdf'')) = None
        \<and> CreatePDF html (path_join pdf_path (p @ ''.pdf'')) = Inl e
        \<and> close_w (path_join pdf_path (p @ ''.pdf'')) = None
        \<longrightarrow> markdown_to_pdf pdf_path markdown open_w CreatePDF close_w markdown_string p = Inl e)
   \<and> (\<not> startswith p ''/'' \<longrightarrow>
        path_join pdf_path (p @ ''.pdf'') =
          (if pdf_path = [] \<or> endswith_sep pdf_path then pdf_path @ p @ ''.pdf''
           else pdf_path @ ''/'' @ p @ ''.pdf''))"
proof (intro conjI)
  let ?out = "path_join pdf_path (p @ ''.pdf'')"
  let ?R = "markdown_to_pdf pdf_path markdown open_w CreatePDF close_w markdown_string p"
  show "(\<exists>e. ?R = Inl e) \<longleftrightarrow>
        (\<exists>e. markdown markdown_string = Inl e)
        \<or> (\<exists>html. markdown markdown_string = Inr html
              \<and> (open_path open_w ?out \<noteq> None \<or> close_w ?out \<noteq> None
                 \<or> (\<exists>e. CreatePDF html ?out = Inl e)
                 \<or> (\<exists>status. CreatePDF html ?out = Inr status \<and> err status \<noteq> 0)))"
    by (cases "markdown markdown_string")
       (auto simp: markdown_to_pdf_def with_file_def Let_def split: option.splits sum.splits)
  show "\<forall>html status.
        markdown markdown_string = Inr html \<and> open_path open_w ?out = None
        \<and> CreatePDF html ?out = Inr status \<and> close_w ?out = None
        \<longrightarrow> ?R = (if err status \<noteq> 0 then Inl (Exception ''Error generating PDF'')
                  else Inr ?out)"
    by (simp add: markdown_to_pdf_def with_file_def)
  show "\<forall>e. markdown markdown_string = Inl e \<longrightarrow> ?R = Inl e"
    by (simp add: markdown_to_pdf_def)
  show "\<forall>html e. markdown markdown_string = Inr html \<and> open_path open_w ?out = Some e
        \<longrightarrow> ?R = Inl e"
    by (simp add: markdown_to_pdf_def with_file_def)
  show "\<forall>html e. markdown markdown_string = Inr html \<and> open_path open_w ?out = None
        \<and> close_w ?out = Some e \<longrightarrow> ?R = Inl e"
    by (simp add: markdown_to_pdf_def with_file_def)
  show "\<forall>html e. markdown markdown_string = Inr html \<and> open_path open_w ?out = None
        \<and> CreatePDF html ?out = Inl e \<and> close_w ?out = None \<longrightarrow> ?R = Inl e"
    by (simp add: markdown_to_pdf_def with_file_def)
  have "\<not> startswith p ''/'' \<Longrightarrow> \<not> startswith (p @ ''.pdf'') ''/''"
    by (cases p) auto
  then show "\<not> startswith p ''/'' \<longrightarrow>
        ?out = (if pdf_path = [] \<or> endswith_sep pdf_path then pdf_path @ p @ ''.pdf''
                else pdf_path @ ''/'' @ p @ ''.pdf'')"
    by (auto simp: path_join_def)
qed

theorem C8_pdf_witness:
  "markdown_to_pdf ''data/pdfs'' (\<lambda>s. Inr s) (\<lambda>path. None)
       (\<lambda>html path. Inr \<lparr>err = 1\<rparr>) (\<lambda>path. None) ''# t'' ''demo''
     = Inl (Exception ''Error generating PDF'')
   \<and> markdown_to_pdf ''data/pdfs'' (\<lambda>s. Inr s) (\<lambda>path. None)
       (\<lambda>html path. Inr \<lparr>err = 0\<rparr>) (\<lambda>path. None) ''# t'' ''demo''
     = Inr ''data/pdfs/demo.pdf''
   \<and> markdown_to_pdf ''data/pdfs'' (\<lambda>s. Inr s) (\<lambda>path. Some OSError)
       (\<lambda>html path. Inr \<lparr>err = 0\<rparr>) (\<lambda>path. None) ''# t'' ''demo''
     = Inl OSError"
  using C8_pdf_raises_iff_step_or_conversion_fails [of "''data/pdfs''" "\<lambda>s. Inr s" "\<lambda>path. None"
      "\<lambda>html path. Inr \<lparr>err = 1\<rparr>" "\<lambda>path. None" "''# t''" "''demo''"]
    C8_pdf_raises_iff_step_or_conversion_fails [of "''data/pdfs''" "\<lambda>s. Inr s" "\<lambda>path. None"
      "\<lambda>html path. Inr \<lparr>err = 0\<rparr>" "\<lambda>path. None" "''# t''" "''demo''"]
    C8_pdf_raises_iff_step_or_conversion_fails [of "''data/pdfs''" "\<lambda>s. Inr s" "\<lambda>path. Some OSError"
      "\<lambda>html path. Inr \<lparr>err = 0\<rparr>" "\<lambda>path. None" "''# t''" "''demo''"]
  by (simp add: open_path_def path_join_def endswith_sep_def)

end
